theory Spec2Isabelle
  imports Complex_Main "HOL-Library.Sublist"
begin

section \<open>Numbers and strings of the JavaScript source\<close>

text \<open>
  JavaScript numbers are modelled as exact reals: thresholds, coordinates, timestamps and
  durations are \<^typ>\<open>real\<close>, so rounding error of IEEE doubles, NaN and the infinities are
  outside the model. Class ids and clock readings are naturals, strings are
  \<^typ>\<open>string\<close> (ASCII bytes).
\<close>

definition js_round :: "real \<Rightarrow> int" where
  \<comment> \<open>\<open>Math.round\<close>: the nearest integer, a half rounded up.\<close>
  "js_round x = \<lfloor>x + 1 / 2\<rfloor>"

definition js_floor :: "real \<Rightarrow> int" where
  \<comment> \<open>\<open>Math.floor\<close>\<close>
  "js_floor x = \<lfloor>x\<rfloor>"

definition digit_char :: "nat \<Rightarrow> char" where
  "digit_char d = ''0123456789'' ! d"

function show_nat :: "nat \<Rightarrow> string" where
  \<comment> \<open>The decimal string a template literal makes of a non-negative integer.\<close>
  "show_nat n = (if n < 10 then [digit_char n] else show_nat (n div 10) @ [digit_char (n mod 10)])"
  by pat_completeness auto
termination
  by (relation "measure (\<lambda>n. n)") auto

declare show_nat.simps [simp del]

definition show_int :: "int \<Rightarrow> string" where
  "show_int i = (if i < 0 then CHR ''-'' # show_nat (nat (- i)) else show_nat (nat i))"

definition read_nat :: "string \<Rightarrow> nat" where
  \<comment> \<open>Reads a decimal string back; used to show that \<open>show_nat\<close> is injective.\<close>
  "read_nat s = foldl (\<lambda>a c. 10 * a + (of_char c - 48)) 0 s"

definition toLowerCase_char :: "char \<Rightarrow> char" where
  "toLowerCase_char c =
     (case map_of (zip ''ABCDEFGHIJKLMNOPQRSTUVWXYZ'' ''abcdefghijklmnopqrstuvwxyz'') c of
        Some l \<Rightarrow> l
      | None \<Rightarrow> c)"

definition toLowerCase :: "string \<Rightarrow> string" where
  \<comment> \<open>\<open>String.prototype.toLowerCase\<close> on ASCII text.\<close>
  "toLowerCase s = map toLowerCase_char s"

fun str_includes :: "string \<Rightarrow> string \<Rightarrow> bool" where
  \<comment> \<open>\<open>s.includes(sub)\<close>: \<open>sub\<close> occurs in \<open>s\<close> at some position.\<close>
  "str_includes [] sub = (sub = [])"
| "str_includes (c # s) sub = (prefix sub (c # s) \<or> str_includes s sub)"

section \<open>detect.js: adaptive throttling\<close>

definition DETECTION_INTERVAL :: real where
  "DETECTION_INTERVAL = 200"

definition MIN_INTERVAL :: real where
  "MIN_INTERVAL = 0"

definition MAX_INTERVAL :: real where
  "MAX_INTERVAL = 500"

definition MAX_SAMPLES :: nat where
  "MAX_SAMPLES = 10"

definition getDetectionInterval :: "real list \<Rightarrow> real" where
  \<comment> \<open>The argument is the module variable \<open>frameTimings\<close>.\<close>
  "getDetectionInterval frameTimings =
     (if length frameTimings \<ge> 5 then
        let avgTime = foldl (\<lambda>sum time. sum + time) 0 frameTimings / real (length frameTimings);
            adaptiveInterval = avgTime * (12 / 10)
        in max MIN_INTERVAL (min MAX_INTERVAL adaptiveInterval)
      else DETECTION_INTERVAL)"

definition recordFrameTiming :: "real list \<Rightarrow> real \<Rightarrow> real list" where
  \<comment> \<open>\<open>push\<close>, then \<open>shift\<close> once when the array is longer than \<open>MAX_SAMPLES\<close>.\<close>
  "recordFrameTiming frameTimings time =
     (let pushed = frameTimings @ [time]
      in if length pushed > MAX_SAMPLES then tl pushed else pushed)"

section \<open>detect.js: letterbox preprocessing of \<open>processFrame\<close>\<close>

record paddingInfo =
  scale :: real
  padLeft :: int
  padTop :: int
  originalShape :: "real \<times> real"

definition modelWidth :: real where
  "modelWidth = 640"

definition modelHeight :: real where
  "modelHeight = 640"

definition letterbox :: "real \<Rightarrow> real \<Rightarrow> paddingInfo" where
  \<comment> \<open>The metadata \<open>processFrame\<close> computes for a frame of width \<open>w\<close> and height \<open>h\<close>.\<close>
  "letterbox w h =
     (let scale = min (modelWidth / w) (modelHeight / h);
          newWidth = js_round (w * scale);
          newHeight = js_round (h * scale);
          padTop = js_floor ((modelHeight - real_of_int newHeight) / 2);
          padLeft = js_floor ((modelWidth - real_of_int newWidth) / 2)
      in \<lparr>scale = scale, padLeft = padLeft, padTop = padTop, originalShape = (h, w)\<rparr>)"

section \<open>Detections and previous-frame records\<close>

type_synonym box = "real \<times> real \<times> real \<times> real"

record screenBox =
  sb_x1 :: real
  sb_y1 :: real
  sb_width :: real
  sb_height :: real

text \<open>
  A detection object. \<open>processFrame\<close> creates it with \<open>box\<close> (as \<open>[x1, y1, x2, y2]\<close>),
  \<open>score\<close>, \<open>class\<close> and \<open>className\<close>; \<open>updateDetectionBoxes\<close> adds \<open>id\<close>,
  \<open>screenBox\<close> and \<open>isKeywordMatch\<close>, which are absent (\<open>None\<close>) until then.
\<close>

record detection =
  det_box :: box
  det_score :: real
  det_class :: nat
  det_className :: string
  det_id :: "string option"
  det_screenBox :: "screenBox option"
  det_isKeywordMatch :: "bool option"

text \<open>The reduced record \<open>{id, class, box}\<close> kept in \<open>previousDetections\<close>.\<close>

record track =
  prev_id :: string
  prev_class :: nat
  prev_box :: box

definition detected :: "box \<Rightarrow> real \<Rightarrow> nat \<Rightarrow> string \<Rightarrow> detection" where
  \<comment> \<open>The object \<open>processFrame\<close> pushes onto \<open>processedDetections\<close>.\<close>
  "detected b sc c n =
     \<lparr>det_box = b, det_score = sc, det_class = c, det_className = n,
      det_id = None, det_screenBox = None, det_isKeywordMatch = None\<rparr>"

section \<open>detect.js: decoding and suppression in \<open>processFrame\<close>\<close>

text \<open>
  The model output is taken after the transposition: one row per anchor, holding the
  centre, the size and the class scores. A row shorter than \<open>4 + numClasses\<close> makes the
  slices of the decoding step throw.
\<close>

definition numClasses :: nat where
  "numClasses = 80"

definition decode_box :: "real list \<Rightarrow> box" where
  \<comment> \<open>\<open>[y1, x1, y2, x2]\<close> from the centre and the size.\<close>
  "decode_box row =
     (let w = row ! 2; h = row ! 3;
          x1 = row ! 0 - w / 2;
          y1 = row ! 1 - h / 2
      in (y1, x1, y1 + h, x1 + w))"

definition rawScores :: "real list \<Rightarrow> real list" where
  "rawScores row = take numClasses (drop 4 row)"

definition maxScore :: "real list \<Rightarrow> real" where
  "maxScore row = fold max (tl (rawScores row)) (hd (rawScores row))"

definition classIndex :: "real list \<Rightarrow> nat" where
  \<comment> \<open>\<open>argMax\<close>: the first index of the largest score.\<close>
  "classIndex row = length (takeWhile (\<lambda>v. v \<noteq> maxScore row) (rawScores row))"

definition decode :: "real list list \<Rightarrow> (box list \<times> real list \<times> nat list) option" where
  "decode rows =
     (if list_ex (\<lambda>row. length row < 4 + numClasses) rows then None
      else Some (map decode_box rows, map maxScore rows, map classIndex rows))"

text \<open>
  The suppressor is \<open>tf.image.nonMaxSuppressionAsync\<close> of the TensorFlow.js library, which
  is not among the sources. Its parameters are, in this order, \<open>boxes\<close>, \<open>scores\<close>,
  \<open>maxOutputSize\<close>, \<open>iouThreshold\<close>, \<open>scoreThreshold\<close>; its result is the list of the
  selected indices in selection order. The three definitions below model it.
\<close>

definition intersectionOverUnion :: "box \<Rightarrow> box \<Rightarrow> real" where
  \<comment> \<open>Modelled from the spec: the library's IoU is absent; this is the intersection area
      over the union area of two axis-aligned boxes \<open>[y1, x1, y2, x2]\<close>, and 0 for a box of
      no area.\<close>
  "intersectionOverUnion a b =
     (case (a, b) of ((ay1, ax1, ay2, ax2), (by1, bx1, by2, bx2)) \<Rightarrow>
        let yminA = min ay1 ay2; xminA = min ax1 ax2; ymaxA = max ay1 ay2; xmaxA = max ax1 ax2;
            yminB = min by1 by2; xminB = min bx1 bx2; ymaxB = max by1 by2; xmaxB = max bx1 bx2;
            areaA = (ymaxA - yminA) * (xmaxA - xminA);
            areaB = (ymaxB - yminB) * (xmaxB - xminB)
        in if areaA \<le> 0 \<or> areaB \<le> 0 then 0
           else
             let intersectionArea =
                   max (min ymaxA ymaxB - max yminA yminB) 0 * max (min xmaxA xmaxB - max xminA xminB) 0
             in intersectionArea / (areaA + areaB - intersectionArea))"

fun nms_select :: "box list \<Rightarrow> real \<Rightarrow> nat \<Rightarrow> nat list \<Rightarrow> nat list \<Rightarrow> nat list" where
  \<comment> \<open>Modelled from the spec: the library's selection loop is absent; a candidate is kept
      only if its IoU with every kept candidate is below the IoU threshold, and the loop
      stops once \<open>maxOutputSize\<close> candidates are kept or none is left.\<close>
  "nms_select boxes iouThreshold maxOutputSize [] selected = selected"
| "nms_select boxes iouThreshold maxOutputSize (c # candidates) selected =
     (if length selected \<ge> maxOutputSize then selected
      else if list_all (\<lambda>j. intersectionOverUnion (boxes ! c) (boxes ! j) < iouThreshold) selected
        then nms_select boxes iouThreshold maxOutputSize candidates (selected @ [c])
        else nms_select boxes iouThreshold maxOutputSize candidates selected)"

definition nonMaxSuppression :: "box list \<Rightarrow> real list \<Rightarrow> nat \<Rightarrow> real \<Rightarrow> real \<Rightarrow> nat list" where
  \<comment> \<open>Modelled from the spec: \<open>tf.image.nonMaxSuppressionAsync\<close> is absent; candidates with
      a score below the score threshold are discarded, the rest are sorted by score,
      descending and stable, and selected greedily.\<close>
  "nonMaxSuppression boxes scores maxOutputSize iouThreshold scoreThreshold =
     (let candidates = filter (\<lambda>i. \<not> scores ! i < scoreThreshold) [0..<length scores];
          sorted = sort_key (\<lambda>i. - (scores ! i)) candidates
      in nms_select boxes iouThreshold maxOutputSize sorted [])"

definition confidenceThreshold :: real where
  "confidenceThreshold = 4 / 10"

definition iouThreshold :: real where
  "iouThreshold = 45 / 100"

definition processFrame_nms :: "box list \<Rightarrow> real list \<Rightarrow> nat list" where
  \<comment> \<open>The call of \<open>processFrame\<close>, its arguments in the order the source writes them:
      \<open>nonMaxSuppressionAsync(boxes, scores, 100, confidenceThreshold, iouThreshold)\<close>.\<close>
  "processFrame_nms boxes scores = nonMaxSuppression boxes scores 100 confidenceThreshold iouThreshold"

definition reference_suppressor :: "box list \<Rightarrow> real list \<Rightarrow> nat list" where
  \<comment> \<open>The reference algorithm in the words of claim C1: keep scores of at least 0.4, order
      by score descending with stable ties, keep a candidate whose IoU with every kept
      candidate is below 0.45, at most 100.\<close>
  "reference_suppressor boxes scores =
     (let kept = filter (\<lambda>i. scores ! i \<ge> 4 / 10) [0..<length scores];
          ordered = sort_key (\<lambda>i. - (scores ! i)) kept
      in nms_select boxes (45 / 100) 100 ordered [])"

definition className_of :: "(nat \<rightharpoonup> string) \<Rightarrow> nat \<Rightarrow> string" where
  \<comment> \<open>\<open>classNames[classId] || `Unknown (${classId})`\<close>\<close>
  "className_of classNames classId =
     (case classNames classId of
        Some n \<Rightarrow> if n \<noteq> [] then n else ''Unknown ('' @ show_nat classId @ '')''
      | None \<Rightarrow> ''Unknown ('' @ show_nat classId @ '')'')"

definition format_detection :: "(nat \<rightharpoonup> string) \<Rightarrow> box \<Rightarrow> real \<Rightarrow> nat \<Rightarrow> detection" where
  "format_detection classNames b sc classId =
     (case b of (y1, x1, y2, x2) \<Rightarrow>
        detected (x1, y1, x2, y2) sc classId (className_of classNames classId))"

definition postprocess :: "(nat \<rightharpoonup> string) \<Rightarrow> real list list \<Rightarrow> detection list option" where
  \<comment> \<open>The inner \<open>try\<close> block of \<open>processFrame\<close>; \<open>None\<close> when it throws. With a single
      anchor \<open>squeeze()\<close> also drops the anchor axis of \<open>boxes\<close>, and the suppressor
      throws on boxes that are not a matrix.\<close>
  "postprocess classNames rows =
     (case decode rows of
        None \<Rightarrow> None
      | Some (boxes, scores, classes) \<Rightarrow>
          if length boxes = 1 then None
          else
            let nms = processFrame_nms boxes scores
            in Some (map (\<lambda>i. format_detection classNames (boxes ! i) (scores ! i) (classes ! i)) nms))"

datatype error = ModelOrVideoUnavailable | PreprocessError | InferenceError | DisposeError

text \<open>
  What \<open>model.execute\<close> does: it throws or rejects; it returns a value that is not a
  tensor (an array of tensors, say), on which the decoding throws and then
  \<open>outputs.dispose()\<close> in the \<open>finally\<close> block throws as well; it returns a tensor of
  another rank or shape, or no value, on which only the decoding throws; or it returns
  the expected tensor, given by its rows.
\<close>

datatype model_output = ExecuteFails | NotATensor | Malformed | Output "real list list"

text \<open>
  What one call of \<open>processFrame\<close> meets: whether the model and the video element exist,
  the size of the frame read from the video (\<open>None\<close> when reading it throws), what
  \<open>model.execute\<close> does, and the class-name table.
\<close>

record frame_env =
  model_loaded :: bool
  video_present :: bool
  frame_size :: "(real \<times> real) option"
  model_result :: model_output
  classNames :: "nat \<rightharpoonup> string"

definition processFrame :: "frame_env \<Rightarrow> error + (detection list \<times> paddingInfo)" where
  \<comment> \<open>\<open>Inl\<close> is a rejected promise. A frame without width or height cannot be read or
      resized. An error of the post-processing block is caught and logged there, and the
      function returns the detections pushed so far (none), unless the clean-up throws.\<close>
  "processFrame env =
     (if \<not> model_loaded env \<or> \<not> video_present env then Inl ModelOrVideoUnavailable
      else
        (case frame_size env of
           None \<Rightarrow> Inl PreprocessError
         | Some (w, h) \<Rightarrow>
             if w \<le> 0 \<or> h \<le> 0 then Inl PreprocessError
             else
               let paddingInfo = letterbox w h
               in (case model_result env of
                     ExecuteFails \<Rightarrow> Inl InferenceError
                   | NotATensor \<Rightarrow> Inl DisposeError
                   | Malformed \<Rightarrow> Inr ([], paddingInfo)
                   | Output rows \<Rightarrow>
                       (case postprocess (classNames env) rows of
                          None \<Rightarrow> Inr ([], paddingInfo)
                        | Some processedDetections \<Rightarrow> Inr (processedDetections, paddingInfo)))))"

section \<open>detect.js: \<open>findMatchingDetection\<close>\<close>

fun scan_previous :: "detection \<Rightarrow> track list \<Rightarrow> track option" where
  \<comment> \<open>The \<open>for (const prev of previousDetections)\<close> loop.\<close>
  "scan_previous detection [] = None"
| "scan_previous detection (prev # rest) =
     (if prev_class prev = det_class detection then
        (case (det_box detection, prev_box prev) of
           ((x1, y1, _, _), (px1, py1, _, _)) \<Rightarrow>
             let dx = \<bar>x1 - px1\<bar>; dy = \<bar>y1 - py1\<bar>
             in if dx < 15 / 100 \<and> dy < 15 / 100 then Some prev
                else scan_previous detection rest)
      else scan_previous detection rest)"

definition findMatchingDetection :: "detection \<Rightarrow> track list \<Rightarrow> track option" where
  \<comment> \<open>\<open>None\<close> is \<open>null\<close>. The arguments are values: the source reads them and assigns to
      neither.\<close>
  "findMatchingDetection detection previousDetections =
     (if previousDetections = [] then None
      else
        (case (case det_id detection of
                 Some i \<Rightarrow> if i \<noteq> [] then find (\<lambda>p. prev_id p = i) previousDetections else None
               | None \<Rightarrow> None) of
           Some exactMatch \<Rightarrow> Some exactMatch
         | None \<Rightarrow> scan_previous detection previousDetections))"

section \<open>detection.js: \<open>updateDetectionBoxes\<close>\<close>

definition new_id :: "detection \<Rightarrow> nat \<Rightarrow> string" where
  \<comment> \<open>The template \<open>${class}_${round(box[0]*100)}_${round(box[1]*100)}_${Date.now() % 1000}\<close>;
      \<open>now\<close> is the reading of \<open>Date.now()\<close>.\<close>
  "new_id detection now =
     (case det_box detection of (x1, y1, _, _) \<Rightarrow>
        show_nat (det_class detection) @ ''_'' @ show_int (js_round (x1 * 100)) @ ''_'' @
        show_int (js_round (y1 * 100)) @ ''_'' @ show_nat (now mod 1000))"

definition assign_id :: "track list \<Rightarrow> nat \<Rightarrow> detection \<Rightarrow> string" where
  "assign_id previousDetections now detection =
     (case findMatchingDetection detection previousDetections of
        Some matchingDetection \<Rightarrow> prev_id matchingDetection
      | None \<Rightarrow> new_id detection now)"

definition unpad :: "paddingInfo \<Rightarrow> box \<Rightarrow> box" where
  \<comment> \<open>\<open>unpadX1\<close>, \<open>unpadY1\<close>, \<open>unpadX2\<close>, \<open>unpadY2\<close>; the box is \<open>[x1, y1, x2, y2]\<close>.\<close>
  "unpad p b =
     (case b of (x1, y1, x2, y2) \<Rightarrow>
        ((x1 - real_of_int (padLeft p)) / scale p,
         (y1 - real_of_int (padTop p)) / scale p,
         (x2 - real_of_int (padLeft p)) / scale p,
         (y2 - real_of_int (padTop p)) / scale p))"

definition to_model_space :: "paddingInfo \<Rightarrow> box \<Rightarrow> box" where
  \<comment> \<open>The forward direction in the words of claim C3: a box of the original frame placed
      in model space with the preprocessor's own scale and padding (resize by \<open>scale\<close>,
      then shift by the left and top padding).\<close>
  "to_model_space p b =
     (case b of (x1, y1, x2, y2) \<Rightarrow>
        (x1 * scale p + real_of_int (padLeft p),
         y1 * scale p + real_of_int (padTop p),
         x2 * scale p + real_of_int (padLeft p),
         y2 * scale p + real_of_int (padTop p)))"

text \<open>
  The page as \<open>updateDetectionBoxes\<close> reads it: whether the element \<open>boxes\<close> exists, the
  rendered size of the video and its intrinsic size.
\<close>

record page =
  boxesContainer :: bool
  rect_width :: real
  rect_height :: real
  videoWidth :: real
  videoHeight :: real

definition screen_box :: "paddingInfo \<Rightarrow> page \<Rightarrow> box \<Rightarrow> screenBox" where
  "screen_box p pg b =
     (let displayRatioX = rect_width pg / videoWidth pg;
          displayRatioY = rect_height pg / videoHeight pg
      in case unpad p b of (unpadX1, unpadY1, unpadX2, unpadY2) \<Rightarrow>
           let displayX1 = unpadX1 * displayRatioX;
               displayY1 = unpadY1 * displayRatioY;
               displayX2 = unpadX2 * displayRatioX;
               displayY2 = unpadY2 * displayRatioY
           in \<lparr>sb_x1 = displayX1, sb_y1 = displayY1,
                sb_width = displayX2 - displayX1, sb_height = displayY2 - displayY1\<rparr>)"

definition isKeywordMatch :: "string \<Rightarrow> string \<Rightarrow> bool" where
  \<comment> \<open>\<open>keyword && className.toLowerCase().includes(keyword.toLowerCase())\<close>, as a truth
      value: the empty keyword is falsy.\<close>
  "isKeywordMatch kw className =
     (kw \<noteq> [] \<and> str_includes (toLowerCase className) (toLowerCase kw))"

definition update_detection ::
  "string \<Rightarrow> paddingInfo \<Rightarrow> page \<Rightarrow> track list \<Rightarrow> nat \<Rightarrow> detection \<Rightarrow> detection" where
  \<comment> \<open>The body of the first loop over the detections.\<close>
  "update_detection kw p pg previousDetections now detection =
     detection\<lparr>det_id := Some (assign_id previousDetections now detection),
               det_screenBox := Some (screen_box p pg (det_box detection)),
               det_isKeywordMatch := Some (isKeywordMatch kw (det_className detection))\<rparr>"

fun update_loop ::
  "string \<Rightarrow> paddingInfo \<Rightarrow> page \<Rightarrow> track list \<Rightarrow> (nat \<Rightarrow> nat) \<Rightarrow> nat \<Rightarrow> detection list
     \<Rightarrow> detection list" where
  \<comment> \<open>\<open>clock k\<close> is what \<open>Date.now()\<close> returns while the \<open>k\<close>-th detection is processed.\<close>
  "update_loop kw p pg previousDetections clock k [] = []"
| "update_loop kw p pg previousDetections clock k (detection # rest) =
     update_detection kw p pg previousDetections (clock k) detection
       # update_loop kw p pg previousDetections clock (Suc k) rest"

definition snapshot :: "detection \<Rightarrow> track" where
  \<comment> \<open>\<open>{id: det.id || '', class: det.class || 0, box: det.box || [0, 0, 0, 0]}\<close>\<close>
  "snapshot det =
     \<lparr>prev_id = (case det_id det of Some i \<Rightarrow> i | None \<Rightarrow> []),
      prev_class = det_class det,
      prev_box = det_box det\<rparr>"

section \<open>detection.js: the session state and its handlers\<close>

text \<open>
  The module variables of detection.js, with \<open>frameTimings\<close> of detect.js. \<open>pending\<close> is
  not a variable of the source: it counts the calls of \<open>processFrame\<close> that
  \<open>detectionLoop\<close> is awaiting. The DOM elements of the boxes and the inference counter
  are left out.
\<close>

record state =
  keyword :: string
  isDetectionRunning :: bool
  lastDetectionTime :: real
  previousDetections :: "track list"
  wasRunningBeforeHidden :: bool
  frameTimings :: "real list"
  pending :: nat

record detectionSet =
  detections :: "detection list"
  totalCount :: nat
  keywordMatchCount :: nat

definition updateDetectionBoxes ::
  "page \<Rightarrow> (nat \<Rightarrow> nat) \<Rightarrow> detection list \<Rightarrow> paddingInfo \<Rightarrow> state \<Rightarrow> detectionSet option \<times> state" where
  \<comment> \<open>Returns the detection set shown on the page (\<open>None\<close> after the early return) and
      the new state. The argument is always an array, as \<open>processFrame\<close> returns one.\<close>
  "updateDetectionBoxes pg clock dets p s =
     (if \<not> boxesContainer pg then (None, s)
      else
        let out = update_loop (keyword s) p pg (previousDetections s) clock 0 dets
        in (Some \<lparr>detections = out, totalCount = length dets,
                   keywordMatchCount = length (filter (\<lambda>d. det_isKeywordMatch d = Some True) out)\<rparr>,
            s\<lparr>previousDetections := map snapshot out\<rparr>))"

definition startDetection :: "bool \<Rightarrow> bool \<Rightarrow> state \<Rightarrow> state" where
  \<comment> \<open>\<open>modelLoaded\<close>: \<open>getModel()\<close> is set; \<open>videoReady\<close>: the video element has a size.\<close>
  "startDetection modelLoaded videoReady s =
     (if \<not> modelLoaded then s
      else if \<not> videoReady then s
      else s\<lparr>previousDetections := [], isDetectionRunning := True, lastDetectionTime := 0\<rparr>)"

definition stopDetection :: "state \<Rightarrow> state" where
  "stopDetection s = s\<lparr>isDetectionRunning := False, previousDetections := []\<rparr>"

definition visibilitychange :: "bool \<Rightarrow> state \<Rightarrow> state" where
  \<comment> \<open>The argument is \<open>document.hidden\<close>.\<close>
  "visibilitychange hidden s =
     (if hidden then s\<lparr>wasRunningBeforeHidden := isDetectionRunning s, isDetectionRunning := False\<rparr>
      else if wasRunningBeforeHidden s then s\<lparr>isDetectionRunning := True, lastDetectionTime := 0\<rparr>
      else s)"

text \<open>
  \<open>detectionLoop\<close> is an async function: it runs up to \<open>await processFrame(videoElement)\<close>,
  and its continuation runs when the promise settles. Other handlers, further animation
  frames among them, run in between. The two parts are two steps on the state.
\<close>

definition detectionLoop_start :: "real \<Rightarrow> state \<Rightarrow> state" where
  \<comment> \<open>From the entry to the \<open>await\<close>: a cycle starts exactly when \<open>pending\<close> grows.\<close>
  "detectionLoop_start timestamp s =
     (if \<not> isDetectionRunning s then s
      else if timestamp - lastDetectionTime s < getDetectionInterval (frameTimings s) then s
      else s\<lparr>lastDetectionTime := timestamp, pending := pending s + 1\<rparr>)"

definition detectionLoop_resume ::
  "error + (detection list \<times> paddingInfo) \<Rightarrow> page \<Rightarrow> (nat \<Rightarrow> nat) \<Rightarrow> state
     \<Rightarrow> detectionSet option \<times> state" where
  \<comment> \<open>After the \<open>await\<close>: the \<open>catch\<close> block for a rejection, \<open>updateDetectionBoxes\<close>
      otherwise.\<close>
  "detectionLoop_resume result pg clock s =
     (case result of
        Inl err \<Rightarrow> (None, s\<lparr>isDetectionRunning := False, pending := pending s - 1\<rparr>)
      | Inr (processedDetections, paddingInfo) \<Rightarrow>
          updateDetectionBoxes pg clock processedDetections paddingInfo (s\<lparr>pending := pending s - 1\<rparr>))"

definition cycle_completed :: "frame_env \<Rightarrow> page \<Rightarrow> (nat \<Rightarrow> nat) \<Rightarrow> state \<Rightarrow> state" where
  \<comment> \<open>The state once a pending cycle has run \<open>processFrame\<close> in \<open>env\<close> and resumed.\<close>
  "cycle_completed env pg clock s = snd (detectionLoop_resume (processFrame env) pg clock s)"

text \<open>
  A session is a sequence of events on the page, applied to the initial values of the
  module variables: the start and stop buttons, a visibility change, an animation frame
  (a call of \<open>detectionLoop\<close> with its timestamp), and the settling of an awaited
  \<open>processFrame\<close>, which can only happen while a call is pending.
\<close>

datatype event =
    Start bool bool
  | Stop
  | VisibilityChange bool
  | Tick real
  | Settle frame_env page "nat \<Rightarrow> nat"

fun apply_event :: "event \<Rightarrow> state \<Rightarrow> state" where
  "apply_event (Start modelLoaded videoReady) s = startDetection modelLoaded videoReady s"
| "apply_event Stop s = stopDetection s"
| "apply_event (VisibilityChange hidden) s = visibilitychange hidden s"
| "apply_event (Tick timestamp) s = detectionLoop_start timestamp s"
| "apply_event (Settle env pg clock) s =
     (if pending s = 0 then s else cycle_completed env pg clock s)"

definition initial_state :: state where
  \<comment> \<open>The initial values of the module variables.\<close>
  "initial_state =
     \<lparr>keyword = [], isDetectionRunning = False, lastDetectionTime = 0, previousDetections = [],
      wasRunningBeforeHidden = False, frameTimings = [], pending = 0\<rparr>"

definition session :: "event list \<Rightarrow> state" where
  "session events = fold apply_event events initial_state"

section \<open>Notions used to state the properties\<close>

definition id_tagged :: "track \<Rightarrow> bool" where
  \<comment> \<open>The id of a record starts with the decimal class id and an underscore.\<close>
  "id_tagged r = (takeWhile (\<lambda>c. c \<noteq> CHR ''_'') (prev_id r) = show_nat (prev_class r))"

definition emitted_ids :: "detectionSet option \<times> state \<Rightarrow> string option list" where
  "emitted_ids r = (case fst r of Some out \<Rightarrow> map det_id (detections out) | None \<Rightarrow> [])"


definition resumed_state :: state where
  \<comment> \<open>A cycle starts at timestamp 4900, then the page is hidden and shown again.\<close>
  "resumed_state =
     session [Start True True, Tick 4900, VisibilityChange True, VisibilityChange False]"

definition example_page :: page where
  "example_page =
     \<lparr>boxesContainer = True, rect_width = 640, rect_height = 360,
      videoWidth = 1280, videoHeight = 720\<rparr>"

definition example_env :: "model_output \<Rightarrow> frame_env" where
  "example_env out =
     \<lparr>model_loaded = True, video_present = True, frame_size = Some (1280, 720),
      model_result = out, classNames = [2 \<mapsto> ''car'']\<rparr>"


definition anchor_row :: "real \<Rightarrow> real \<Rightarrow> real \<Rightarrow> real \<Rightarrow> nat \<Rightarrow> real \<Rightarrow> real list" where
  \<comment> \<open>A row of the model output: centre, size, and the score \<open>sc\<close> for class \<open>c\<close> alone.\<close>
  "anchor_row cx cy w h c sc = [cx, cy, w, h] @ replicate c 0 @ [sc] @ replicate (79 - c) 0"

definition two_objects :: model_output where
  \<comment> \<open>A car in \<open>[100, 50, 110, 300]\<close> and a person in \<open>[390, 390, 410, 410]\<close>.\<close>
  "two_objects = Output [anchor_row 105 175 10 250 2 (9 / 10), anchor_row 400 400 20 20 0 (7 / 10)]"

definition tracked_session :: "event list" where
  \<comment> \<open>A start, a tick, and the cycle settling with two detections.\<close>
  "tracked_session =
     [Start True True, Tick 1000, Settle (example_env two_objects) example_page (\<lambda>k. 1730000123456)]"

definition tracked_records :: "track list" where
  "tracked_records =
     [\<lparr>prev_id = ''2_10000_5000_456'', prev_class = 2, prev_box = (100, 50, 110, 300)\<rparr>,
      \<lparr>prev_id = ''0_39000_39000_456'', prev_class = 0, prev_box = (390, 390, 410, 410)\<rparr>]"

definition shared_prev :: "track list" where
  "shared_prev = [\<lparr>prev_id = ''2_10000_5000_456'', prev_class = 2, prev_box = (100, 50, 200, 300)\<rparr>]"

definition box_a :: box where
  "box_a = (0, 0, 10, 10)"

definition box_b :: box where
  "box_b = (0, 0, 10, 42 / 10)"

section \<open>Decimal strings\<close>

lemma digit_char_code: "d < 10 \<Longrightarrow> of_char (digit_char d) = 48 + d"
proof -
  assume "d < 10"
  then have "d \<in> {0,1,2,3,4,5,6,7,8,9}" by auto
  then show ?thesis by (auto simp: digit_char_def)
qed

lemma digit_char_not_underscore: "d < 10 \<Longrightarrow> digit_char d \<noteq> CHR ''_''"
  using digit_char_code [of d] by auto

lemma show_nat_no_underscore: "CHR ''_'' \<notin> set (show_nat n)"
proof (induction n rule: show_nat.induct)
  case (1 n)
  show ?case
  proof (cases "n < 10")
    case True
    then show ?thesis using digit_char_not_underscore [of n] by (subst show_nat.simps) simp
  next
    case False
    then show ?thesis using 1 digit_char_not_underscore [of "n mod 10"]
      by (subst show_nat.simps) simp
  qed
qed

lemma read_show_nat: "read_nat (show_nat n) = n"
proof (induction n rule: show_nat.induct)
  case (1 n)
  show ?case
  proof (cases "n < 10")
    case True
    then show ?thesis using digit_char_code [of n]
      by (subst show_nat.simps) (simp add: read_nat_def)
  next
    case False
    then have "read_nat (show_nat (n div 10)) = n div 10" using 1 by simp
    then show ?thesis using False digit_char_code [of "n mod 10"]
      by (subst show_nat.simps) (simp add: read_nat_def)
  qed
qed

lemma show_nat_inj: "show_nat m = show_nat n \<Longrightarrow> m = n"
  by (metis read_show_nat)

section \<open>Properties of the scheduler\<close>

lemma foldl_plus_sum_list: "foldl (\<lambda>sum time. sum + time) a xs = a + sum_list (xs :: real list)"
  by (induction xs arbitrary: a) (simp_all add: add.assoc)

lemma recordFrameTiming_length:
  "length samples \<le> MAX_SAMPLES \<Longrightarrow> length (recordFrameTiming samples t) \<le> MAX_SAMPLES"
  by (simp add: recordFrameTiming_def Let_def)

text \<open>The stored window holds the last \<open>MAX_SAMPLES\<close> recorded durations.\<close>

lemma recorded_window:
  "foldl recordFrameTiming [] ds = drop (length ds - MAX_SAMPLES) ds"
proof (induction ds rule: rev_induct)
  case Nil
  then show ?case by simp
next
  case (snoc d ds)
  show ?case
  proof (cases "length ds < MAX_SAMPLES")
    case True
    then show ?thesis
      using snoc by (simp add: recordFrameTiming_def)
  next
    case False
    then have k: "Suc (length ds - MAX_SAMPLES) = Suc (length ds) - MAX_SAMPLES"
      by (simp add: MAX_SAMPLES_def)
    have "drop (length ds - MAX_SAMPLES) ds \<noteq> []"
      using False by (simp add: MAX_SAMPLES_def)
    then have "tl (drop (length ds - MAX_SAMPLES) ds @ [d]) = drop (Suc (length ds - MAX_SAMPLES)) ds @ [d]"
      by (simp add: tl_drop drop_Suc)
    then have "tl (drop (length ds - MAX_SAMPLES) ds @ [d]) = drop (Suc (length ds) - MAX_SAMPLES) ds @ [d]"
      using k by simp
    then show ?thesis
      using snoc False by (simp add: recordFrameTiming_def MAX_SAMPLES_def)
  qed
qed

text \<open>
  Claim C5. With fewer than 5 stored samples \<open>getDetectionInterval\<close> returns the fallback
  200; with 5 or more it returns the mean of the stored samples times 1.2, clamped to the
  interval from 0 to 500; after five recorded durations of 100 it returns 120.
\<close>

theorem getDetectionInterval_spec:
  "(length samples < 5 \<longrightarrow> getDetectionInterval samples = 200) \<and>
   (5 \<le> length samples \<longrightarrow>
      getDetectionInterval samples =
        max 0 (min 500 (sum_list samples / real (length samples) * (12 / 10)))) \<and>
   getDetectionInterval (foldl recordFrameTiming [] [100, 100, 100, 100, 100]) = 120"
proof (intro conjI impI)
  assume "length samples < 5"
  then show "getDetectionInterval samples = 200"
    by (simp add: getDetectionInterval_def DETECTION_INTERVAL_def)
next
  assume "5 \<le> length samples"
  then show "getDetectionInterval samples =
      max 0 (min 500 (sum_list samples / real (length samples) * (12 / 10)))"
    by (simp add: getDetectionInterval_def foldl_plus_sum_list MIN_INTERVAL_def MAX_INTERVAL_def)
next
  show "getDetectionInterval (foldl recordFrameTiming [] [100, 100, 100, 100, 100]) = 120"
    by (simp add: getDetectionInterval_def recordFrameTiming_def MAX_SAMPLES_def
        MIN_INTERVAL_def MAX_INTERVAL_def)
qed

theorem getDetectionInterval_spec_witness:
  "length [30, 40 :: real] < 5 \<and> getDetectionInterval [30, 40] = 200 \<and>
   5 \<le> length [400, 500, 600, 400, 500, 600 :: real] \<and>
   getDetectionInterval [400, 500, 600, 400, 500, 600] = 500 \<and>
   getDetectionInterval [10, 20, 30, 40, 50] = 36"
proof -
  have a: "getDetectionInterval [30, 40] = 200"
    using getDetectionInterval_spec [of "[30, 40]"] by simp
  have b: "getDetectionInterval [400, 500, 600, 400, 500, 600] = 500"
    using getDetectionInterval_spec [of "[400, 500, 600, 400, 500, 600]"] by simp
  have c: "getDetectionInterval [10, 20, 30, 40, 50] = 36"
    using getDetectionInterval_spec [of "[10, 20, 30, 40, 50]"] by simp
  show ?thesis using a b c by simp
qed

section \<open>Properties of the coordinate mapping\<close>

lemma letterbox_scale_pos: "0 < w \<Longrightarrow> 0 < h \<Longrightarrow> 0 < scale (letterbox w h)"
  by (simp add: letterbox_def Let_def modelWidth_def modelHeight_def)

text \<open>
  Claim C3. For a frame of positive width and height, a box placed in model space with the
  preprocessor's scale, left padding and top padding is mapped back to the original box by
  the unpad formulas of \<open>updateDetectionBoxes\<close> (exactly, in real arithmetic).
\<close>

theorem unpad_round_trip:
  "0 < w \<Longrightarrow> 0 < h \<Longrightarrow> unpad (letterbox w h) (to_model_space (letterbox w h) b) = b"
proof -
  assume "0 < w" and "0 < h"
  then have "scale (letterbox w h) \<noteq> 0"
    using letterbox_scale_pos [of w h] by simp
  then show ?thesis
    by (cases b) (simp add: unpad_def to_model_space_def)
qed

theorem unpad_round_trip_witness:
  "(0::real) < 1280 \<and> (0::real) < 720 \<and>
   scale (letterbox 1280 720) = 1 / 2 \<and> padLeft (letterbox 1280 720) = 0 \<and>
   padTop (letterbox 1280 720) = 140 \<and>
   to_model_space (letterbox 1280 720) (100, 200, 300, 400) = (50, 240, 150, 340) \<and>
   unpad (letterbox 1280 720) (50, 240, 150, 340) = (100, 200, 300, 400)"
proof -
  have v: "to_model_space (letterbox 1280 720) (100, 200, 300, 400) = (50, 240, 150, 340)"
    by (simp add: to_model_space_def letterbox_def Let_def modelWidth_def modelHeight_def
        js_round_def js_floor_def)
  have "unpad (letterbox 1280 720) (to_model_space (letterbox 1280 720) (100, 200, 300, 400))
      = (100, 200, 300, 400)"
    by (rule unpad_round_trip) simp_all
  then show ?thesis
    using v by (simp add: letterbox_def Let_def modelWidth_def modelHeight_def
        js_round_def js_floor_def)
qed

section \<open>Properties of the suppression call\<close>

lemma iou_box_a_box_b: "intersectionOverUnion box_a box_b = 42 / 100"
  unfolding intersectionOverUnion_def box_a_def box_b_def Let_def prod.case by simp

text \<open>
  With the two thresholds in the order of the suppressor's parameters, the call would
  compute the reference algorithm of claim C1.
\<close>

lemma nonMaxSuppression_reference:
  "nonMaxSuppression boxes scores 100 iouThreshold confidenceThreshold = reference_suppressor boxes scores"
  by (simp add: nonMaxSuppression_def reference_suppressor_def iouThreshold_def
      confidenceThreshold_def not_less)

text \<open>
  Claim C1. \<open>processFrame\<close> passes \<open>confidenceThreshold\<close> (0.4) where the suppressor takes
  its IoU threshold and \<open>iouThreshold\<close> (0.45) where it takes its score threshold. A single
  candidate of score 0.42 is dropped, though the reference algorithm of the claim keeps
  it; of two candidates whose boxes have IoU 0.42 only the better is kept, though the
  reference keeps both.
\<close>

theorem processFrame_nms_swapped_thresholds:
  "processFrame_nms [box_a] [42 / 100] = [] \<and>
   reference_suppressor [box_a] [42 / 100] = [0] \<and>
   processFrame_nms [box_a, box_b] [8 / 10, 9 / 10] = [1] \<and>
   reference_suppressor [box_a, box_b] [8 / 10, 9 / 10] = [1, 0]"
proof (intro conjI)
  show "processFrame_nms [box_a] [42 / 100] = []"
    by (simp add: processFrame_nms_def nonMaxSuppression_def confidenceThreshold_def
        iouThreshold_def)
  show "reference_suppressor [box_a] [42 / 100] = [0]"
    by (simp add: reference_suppressor_def)
  show "processFrame_nms [box_a, box_b] [8 / 10, 9 / 10] = [1]"
    by (simp add: processFrame_nms_def nonMaxSuppression_def confidenceThreshold_def
        iouThreshold_def upt_conv_Cons iou_box_a_box_b)
  show "reference_suppressor [box_a, box_b] [8 / 10, 9 / 10] = [1, 0]"
    by (simp add: reference_suppressor_def upt_conv_Cons iou_box_a_box_b)
qed

section \<open>Properties of the tracker\<close>

lemma takeWhile_show_nat:
  "takeWhile (\<lambda>c. c \<noteq> CHR ''_'') (show_nat n @ CHR ''_'' # rest) = show_nat n"
  using show_nat_no_underscore [of n] by (simp add: takeWhile_append)

lemma takeWhile_new_id:
  "takeWhile (\<lambda>c. c \<noteq> CHR ''_'') (new_id d now) = show_nat (det_class d)"
  by (cases "det_box d") (simp add: new_id_def takeWhile_show_nat)

lemma scan_previous_Some:
  "scan_previous d ps = Some p \<Longrightarrow> p \<in> set ps \<and> prev_class p = det_class d"
  by (induction ps) (auto split: if_splits prod.splits simp: Let_def)

lemma find_Some_mem: "find P xs = Some x \<Longrightarrow> x \<in> set xs"
  by (induction xs) (auto split: if_splits)

lemma findMatchingDetection_mem:
  "findMatchingDetection d ps = Some p \<Longrightarrow> p \<in> set ps"
  by (auto simp: findMatchingDetection_def split: if_splits option.splits
      dest: scan_previous_Some find_Some_mem)

lemma findMatchingDetection_fresh:
  "det_id d = None \<Longrightarrow> findMatchingDetection d ps = scan_previous d ps"
  by (cases ps) (simp_all add: findMatchingDetection_def)

lemma assign_id_tagged:
  assumes "det_id d = None" and "list_all id_tagged ps"
  shows "takeWhile (\<lambda>c. c \<noteq> CHR ''_'') (assign_id ps now d) = show_nat (det_class d)"
proof (cases "scan_previous d ps")
  case None
  then show ?thesis
    using assms(1) by (simp add: assign_id_def findMatchingDetection_fresh takeWhile_new_id)
next
  case (Some p)
  then have "p \<in> set ps" and "prev_class p = det_class d"
    using scan_previous_Some by blast+
  moreover from \<open>p \<in> set ps\<close> have "id_tagged p"
    using assms(2) by (simp add: list_all_iff)
  ultimately show ?thesis
    using assms(1) Some by (simp add: assign_id_def findMatchingDetection_fresh id_tagged_def)
qed

lemma update_loop_map:
  "update_loop kw p pg prev clock k ds =
     map (\<lambda>(i, d). update_detection kw p pg prev (clock (k + i)) d) (zip [0..<length ds] ds)"
proof (induction ds arbitrary: k)
  case Nil
  then show ?case by simp
next
  case (Cons d ds)
  have "zip [0..<length (d # ds)] (d # ds) = (0, d) # zip (map Suc [0..<length ds]) ds"
    by (simp add: upt_conv_Cons map_Suc_upt del: upt_Suc)
  then show ?case
    using Cons.IH [of "Suc k"] by (simp add: zip_map1 case_prod_unfold comp_def)
qed

lemma update_loop_length: "length (update_loop kw p pg prev clock k ds) = length ds"
  by (simp add: update_loop_map)

lemma update_loop_nth:
  "i < length ds \<Longrightarrow>
     update_loop kw p pg prev clock k ds ! i = update_detection kw p pg prev (clock (k + i)) (ds ! i)"
  by (simp add: update_loop_map)

lemma snapshot_update_tagged:
  "det_id d = None \<Longrightarrow> list_all id_tagged prev \<Longrightarrow>
     id_tagged (snapshot (update_detection kw p pg prev now d))"
  by (simp add: id_tagged_def snapshot_def update_detection_def assign_id_tagged)

lemma updateDetectionBoxes_tagged:
  assumes "list_all id_tagged (previousDetections s)" and "list_all (\<lambda>d. det_id d = None) ds"
  shows "list_all id_tagged (previousDetections (snd (updateDetectionBoxes pg clock ds p s)))"
proof (cases "boxesContainer pg")
  case False
  then show ?thesis using assms(1) by (simp add: updateDetectionBoxes_def)
next
  case True
  have "id_tagged (snapshot x)"
    if "x \<in> set (update_loop (keyword s) p pg (previousDetections s) clock 0 ds)" for x
  proof -
    from that obtain i where "i < length ds"
      and "x = update_detection (keyword s) p pg (previousDetections s) (clock (0 + i)) (ds ! i)"
      by (metis in_set_conv_nth update_loop_length update_loop_nth)
    moreover have "det_id (ds ! i) = None"
      using assms(2) \<open>i < length ds\<close> by (simp add: list_all_length)
    ultimately show ?thesis
      using assms(1) snapshot_update_tagged by simp
  qed
  then show ?thesis
    using True by (simp add: updateDetectionBoxes_def Let_def list_all_iff)
qed

text \<open>
  Claim C4. Two consecutive cycles with one detection each, as \<open>processFrame\<close> returns
  them (no id yet), from a state whose records carry ids tagged with their class (every
  state a session reaches): if the class is the same and the top-left corner moved by less
  than 0.15 in both coordinates, the second cycle assigns the id of the first; if the
  class differs, the second cycle assigns a freshly made id, different from the first.
\<close>

theorem tracker_stability:
  assumes pg: "boxesContainer pg1" "boxesContainer pg2"
    and fresh: "det_id da = None" "det_id db = None"
    and inv: "list_all id_tagged (previousDetections s)"
    and boxes: "det_box da = (ax1, ay1, ax2, ay2)" "det_box db = (bx1, by1, bx2, by2)"
  shows
    "(det_class db = det_class da \<and> \<bar>bx1 - ax1\<bar> < 15 / 100 \<and> \<bar>by1 - ay1\<bar> < 15 / 100 \<longrightarrow>
        emitted_ids (updateDetectionBoxes pg2 clock2 [db] p2
                       (snd (updateDetectionBoxes pg1 clock1 [da] p1 s)))
          = emitted_ids (updateDetectionBoxes pg1 clock1 [da] p1 s)) \<and>
     (det_class db \<noteq> det_class da \<longrightarrow>
        emitted_ids (updateDetectionBoxes pg2 clock2 [db] p2
                       (snd (updateDetectionBoxes pg1 clock1 [da] p1 s)))
          = [Some (new_id db (clock2 0))] \<and>
        emitted_ids (updateDetectionBoxes pg2 clock2 [db] p2
                       (snd (updateDetectionBoxes pg1 clock1 [da] p1 s)))
          \<noteq> emitted_ids (updateDetectionBoxes pg1 clock1 [da] p1 s))"
proof -
  define id1 where "id1 = assign_id (previousDetections s) (clock1 0) da"
  define r1 where "r1 = \<lparr>prev_id = id1, prev_class = det_class da, prev_box = det_box da\<rparr>"
  have first: "emitted_ids (updateDetectionBoxes pg1 clock1 [da] p1 s) = [Some id1]"
    using pg(1) by (simp add: updateDetectionBoxes_def emitted_ids_def update_detection_def id1_def)
  have prev1: "previousDetections (snd (updateDetectionBoxes pg1 clock1 [da] p1 s)) = [r1]"
    using pg(1)
    by (simp add: updateDetectionBoxes_def update_detection_def snapshot_def id1_def r1_def)
  have second: "emitted_ids (updateDetectionBoxes pg2 clock2 [db] p2
                   (snd (updateDetectionBoxes pg1 clock1 [da] p1 s)))
                 = [Some (assign_id [r1] (clock2 0) db)]"
    using pg(2) prev1
    by (simp add: updateDetectionBoxes_def emitted_ids_def update_detection_def)
  have same: "assign_id [r1] (clock2 0) db = id1"
    if "det_class db = det_class da" "\<bar>bx1 - ax1\<bar> < 15 / 100" "\<bar>by1 - ay1\<bar> < 15 / 100"
    using that fresh(2) boxes
    by (simp add: assign_id_def findMatchingDetection_fresh r1_def)
  have other: "assign_id [r1] (clock2 0) db = new_id db (clock2 0)"
    if "det_class db \<noteq> det_class da"
    using that fresh(2) by (simp add: assign_id_def findMatchingDetection_fresh r1_def)
  have differ: "new_id db (clock2 0) \<noteq> id1" if "det_class db \<noteq> det_class da"
  proof
    assume eq: "new_id db (clock2 0) = id1"
    have "takeWhile (\<lambda>c. c \<noteq> CHR ''_'') id1 = show_nat (det_class da)"
      unfolding id1_def using fresh(1) inv by (rule assign_id_tagged)
    moreover have "takeWhile (\<lambda>c. c \<noteq> CHR ''_'') (new_id db (clock2 0)) = show_nat (det_class db)"
      by (rule takeWhile_new_id)
    ultimately have "show_nat (det_class db) = show_nat (det_class da)"
      using eq by simp
    then show False
      using that show_nat_inj by blast
  qed
  show ?thesis
    using first second same other differ by simp
qed

theorem tracker_stability_witness:
  "emitted_ids (updateDetectionBoxes example_page (\<lambda>k. 1730000123456)
       [detected (100, 50, 200, 300) (82 / 100) 2 ''car''] (letterbox 1280 720) initial_state)
     = [Some ''2_10000_5000_456''] \<and>
   emitted_ids (updateDetectionBoxes example_page (\<lambda>k. 1730000123789)
       [detected (1001 / 10, 4995 / 100, 201, 300) (80 / 100) 2 ''car''] (letterbox 1280 720)
       (snd (updateDetectionBoxes example_page (\<lambda>k. 1730000123456)
          [detected (100, 50, 200, 300) (82 / 100) 2 ''car''] (letterbox 1280 720) initial_state)))
     = [Some ''2_10000_5000_456''] \<and>
   emitted_ids (updateDetectionBoxes example_page (\<lambda>k. 1730000123789)
       [detected (100, 50, 200, 300) (82 / 100) 7 ''truck''] (letterbox 1280 720)
       (snd (updateDetectionBoxes example_page (\<lambda>k. 1730000123456)
          [detected (100, 50, 200, 300) (82 / 100) 2 ''car''] (letterbox 1280 720) initial_state)))
     = [Some ''7_10000_5000_789'']"
proof -
  let ?pg = example_page and ?s = initial_state and ?p = "letterbox 1280 720"
  let ?da = "detected (100, 50, 200, 300) (82 / 100) 2 ''car''"
  let ?db = "detected (1001 / 10, 4995 / 100, 201, 300) (80 / 100) 2 ''car''"
  let ?dc = "detected (100, 50, 200, 300) (82 / 100) 7 ''truck''"
  have pg: "boxesContainer ?pg" by (simp add: example_page_def)
  have inv: "list_all id_tagged (previousDetections ?s)" by (simp add: initial_state_def)
  have first: "emitted_ids (updateDetectionBoxes ?pg (\<lambda>k. 1730000123456) [?da] ?p ?s)
      = [Some ''2_10000_5000_456'']"
    by (simp add: updateDetectionBoxes_def emitted_ids_def update_detection_def example_page_def
        initial_state_def detected_def assign_id_def findMatchingDetection_def new_id_def
        js_round_def show_int_def show_nat.simps digit_char_def)
  have nid: "new_id ?dc 1730000123789 = ''7_10000_5000_789''"
    by (simp add: detected_def new_id_def js_round_def show_int_def show_nat.simps digit_char_def)
  have same: "emitted_ids (updateDetectionBoxes ?pg (\<lambda>k. 1730000123789) [?db] ?p
        (snd (updateDetectionBoxes ?pg (\<lambda>k. 1730000123456) [?da] ?p ?s)))
      = emitted_ids (updateDetectionBoxes ?pg (\<lambda>k. 1730000123456) [?da] ?p ?s)"
    using tracker_stability [OF pg pg _ _ inv, of ?da ?db 100 50 200 300 "1001 / 10" "4995 / 100" 201 300
        "\<lambda>k. 1730000123789" ?p "\<lambda>k. 1730000123456" ?p]
    by (simp add: detected_def)
  have changed: "emitted_ids (updateDetectionBoxes ?pg (\<lambda>k. 1730000123789) [?dc] ?p
        (snd (updateDetectionBoxes ?pg (\<lambda>k. 1730000123456) [?da] ?p ?s)))
      = [Some (new_id ?dc 1730000123789)]"
    using tracker_stability [OF pg pg _ _ inv, of ?da ?dc 100 50 200 300 100 50 200 300
        "\<lambda>k. 1730000123789" ?p "\<lambda>k. 1730000123456" ?p]
    by (simp add: detected_def)
  show ?thesis
    using first same changed nid by simp
qed

text \<open>The ids stay tagged with their class from the start of a session on.\<close>

lemma initial_state_tagged: "list_all id_tagged (previousDetections initial_state)"
  by (simp add: initial_state_def)

lemma processFrame_fresh:
  "processFrame env = Inr (ds, p) \<Longrightarrow> list_all (\<lambda>d. det_id d = None) ds"
  by (auto simp: processFrame_def postprocess_def format_detection_def detected_def list_all_iff
      Let_def split: if_splits option.splits prod.splits model_output.splits)

lemma apply_event_tagged:
  assumes "list_all id_tagged (previousDetections s)"
  shows "list_all id_tagged (previousDetections (apply_event e s))"
proof (cases e)
  case (Start m v)
  then show ?thesis using assms by (simp add: startDetection_def)
next
  case Stop
  then show ?thesis by (simp add: stopDetection_def)
next
  case (VisibilityChange h)
  then show ?thesis using assms by (simp add: visibilitychange_def)
next
  case (Tick ts)
  then show ?thesis using assms by (simp add: detectionLoop_start_def)
next
  case (Settle env pg clock)
  show ?thesis
  proof (cases "processFrame env")
    case (Inl err)
    then show ?thesis
      using assms Settle by (simp add: cycle_completed_def detectionLoop_resume_def)
  next
    case (Inr r)
    obtain ds p where r: "r = (ds, p)" by (cases r)
    have "list_all (\<lambda>d. det_id d = None) ds"
      using Inr r processFrame_fresh by blast
    moreover have "list_all id_tagged (previousDetections (s\<lparr>pending := pending s - 1\<rparr>))"
      using assms by simp
    ultimately have "list_all id_tagged (previousDetections
        (snd (updateDetectionBoxes pg clock ds p (s\<lparr>pending := pending s - 1\<rparr>))))"
      by (intro updateDetectionBoxes_tagged)
    then show ?thesis
      using assms Settle Inr r by (simp add: cycle_completed_def detectionLoop_resume_def)
  qed
qed

lemma fold_apply_event_tagged:
  "list_all id_tagged (previousDetections s) \<Longrightarrow>
     list_all id_tagged (previousDetections (fold apply_event es s))"
  by (induction es arbitrary: s) (simp_all add: apply_event_tagged)

lemma session_tagged: "list_all id_tagged (previousDetections (session es))"
  by (simp add: session_def fold_apply_event_tagged initial_state_tagged)

text \<open>
  Claim C10. \<open>findMatchingDetection\<close> returns a record of the previous list and leaves
  the list as it is: every detection of a cycle is matched against the whole list, so the
  id of the detection at index \<open>i\<close> is the one it would get alone. Two distinct detections
  can match the same record and get the same id.
\<close>

theorem findMatchingDetection_keeps_records:
  "(\<forall>i < length ds.
      det_id (update_loop kw p pg prev clock 0 ds ! i) = Some (assign_id prev (clock i) (ds ! i))) \<and>
   (\<forall>d m. findMatchingDetection d prev = Some m \<longrightarrow> m \<in> set prev) \<and>
   (\<exists>ps da db. da \<noteq> db \<and> findMatchingDetection da ps \<noteq> None \<and>
      findMatchingDetection db ps = findMatchingDetection da ps \<and>
      \<not> distinct (map det_id (update_loop kw p pg ps clock 0 [da, db])))"
proof (intro conjI allI impI)
  fix i
  assume "i < length ds"
  then show "det_id (update_loop kw p pg prev clock 0 ds ! i) = Some (assign_id prev (clock i) (ds ! i))"
    by (simp add: update_loop_nth update_detection_def)
next
  fix d m
  assume "findMatchingDetection d prev = Some m"
  then show "m \<in> set prev"
    by (rule findMatchingDetection_mem)
next
  let ?da = "detected (100, 50, 110, 60) (9 / 10) 2 ''car''"
  let ?db = "detected (1001 / 10, 501 / 10, 400, 400) (8 / 10) 2 ''car''"
  have "?da \<noteq> ?db" by (simp add: detected_def)
  moreover have "findMatchingDetection ?da shared_prev \<noteq> None"
    by (simp add: findMatchingDetection_def shared_prev_def detected_def)
  moreover have "findMatchingDetection ?db shared_prev = findMatchingDetection ?da shared_prev"
    by (simp add: findMatchingDetection_def shared_prev_def detected_def)
  moreover have "\<not> distinct (map det_id (update_loop kw p pg shared_prev clock 0 [?da, ?db]))"
    by (simp add: update_detection_def assign_id_def findMatchingDetection_def shared_prev_def
        detected_def)
  ultimately show "\<exists>ps da db. da \<noteq> db \<and> findMatchingDetection da ps \<noteq> None \<and>
      findMatchingDetection db ps = findMatchingDetection da ps \<and>
      \<not> distinct (map det_id (update_loop kw p pg ps clock 0 [da, db]))"
    by blast
qed

theorem findMatchingDetection_keeps_records_witness:
  "map det_id (update_loop ''car'' (letterbox 1280 720) example_page shared_prev (\<lambda>k. 1730000123789) 0
      [detected (100, 50, 110, 60) (9 / 10) 2 ''car'',
       detected (1001 / 10, 501 / 10, 400, 400) (8 / 10) 2 ''car''])
     = [Some ''2_10000_5000_456'', Some ''2_10000_5000_456'']"
proof -
  let ?ds = "[detected (100, 50, 110, 60) (9 / 10) 2 ''car'',
       detected (1001 / 10, 501 / 10, 400, 400) (8 / 10) 2 ''car'']"
  let ?out = "update_loop ''car'' (letterbox 1280 720) example_page shared_prev (\<lambda>k. 1730000123789) 0 ?ds"
  have step: "det_id (?out ! i) = Some (assign_id shared_prev 1730000123789 (?ds ! i))"
    if "i < length ?ds" for i
    using that findMatchingDetection_keeps_records [of ?ds "''car''" "letterbox 1280 720" example_page
        shared_prev "\<lambda>k. 1730000123789"]
    by blast
  have v0: "assign_id shared_prev 1730000123789 (?ds ! 0) = ''2_10000_5000_456''"
    by (simp add: assign_id_def findMatchingDetection_def shared_prev_def detected_def)
  have v1: "assign_id shared_prev 1730000123789 (?ds ! 1) = ''2_10000_5000_456''"
    by (simp add: assign_id_def findMatchingDetection_def shared_prev_def detected_def)
  have "det_id (?out ! 0) = Some ''2_10000_5000_456''"
    using step [of 0] v0 by simp
  moreover have "det_id (?out ! 1) = Some ''2_10000_5000_456''"
    using step [of 1] v1 by simp
  moreover have "length ?out = 2" by (simp add: update_loop_length)
  ultimately show ?thesis
    by (simp add: list_eq_iff_nth_eq less_Suc_eq numeral_2_eq_2)
qed

section \<open>Properties of the keyword flag\<close>

lemma str_includes_sublist: "str_includes s sub \<longleftrightarrow> sublist sub s"
  by (induction s) (simp_all add: sublist_Cons_right)

lemma str_includes_iff: "str_includes s sub \<longleftrightarrow> (\<exists>pre post. s = pre @ sub @ post)"
  by (simp add: str_includes_sublist sublist_def)

text \<open>
  Claim C9. The flag \<open>isKeywordMatch\<close> of a detection is true exactly when the keyword
  is not empty and the lowercased class name contains the lowercased keyword as a
  substring; "car" matches the class name "carrot".
\<close>

theorem isKeywordMatch_iff:
  "(det_isKeywordMatch (update_detection kw p pg prev now d) = Some True \<longleftrightarrow>
      kw \<noteq> [] \<and>
      (\<exists>pre post. toLowerCase (det_className d) = pre @ toLowerCase kw @ post)) \<and>
   isKeywordMatch ''car'' ''carrot''"
proof
  show "det_isKeywordMatch (update_detection kw p pg prev now d) = Some True \<longleftrightarrow>
      kw \<noteq> [] \<and> (\<exists>pre post. toLowerCase (det_className d) = pre @ toLowerCase kw @ post)"
    by (simp add: update_detection_def isKeywordMatch_def str_includes_iff)
next
  show "isKeywordMatch ''car'' ''carrot''"
    by (simp add: isKeywordMatch_def toLowerCase_def toLowerCase_char_def)
qed

theorem isKeywordMatch_iff_witness:
  "det_isKeywordMatch (update_detection ''Bus'' (letterbox 1280 720) example_page [] 0
      (detected (0, 0, 10, 10) (9 / 10) 5 ''school bus'')) = Some True \<and>
   det_isKeywordMatch (update_detection ''bus'' (letterbox 1280 720) example_page [] 0
      (detected (0, 0, 10, 10) (9 / 10) 7 ''truck'')) \<noteq> Some True \<and>
   det_isKeywordMatch (update_detection [] (letterbox 1280 720) example_page [] 0
      (detected (0, 0, 10, 10) (9 / 10) 7 ''truck'')) \<noteq> Some True"
proof -
  have "toLowerCase (det_className (detected (0, 0, 10, 10) (9 / 10) 5 ''school bus''))
      = ''school '' @ toLowerCase ''Bus'' @ []"
    by (simp add: detected_def toLowerCase_def toLowerCase_char_def)
  then have a: "det_isKeywordMatch (update_detection ''Bus'' (letterbox 1280 720) example_page [] 0
      (detected (0, 0, 10, 10) (9 / 10) 5 ''school bus'')) = Some True"
    using isKeywordMatch_iff [of "''Bus''" "letterbox 1280 720" example_page "[]" 0
        "detected (0, 0, 10, 10) (9 / 10) 5 ''school bus''"]
    by blast
  have b: "det_isKeywordMatch (update_detection ''bus'' (letterbox 1280 720) example_page [] 0
      (detected (0, 0, 10, 10) (9 / 10) 7 ''truck'')) \<noteq> Some True"
    by (simp add: update_detection_def isKeywordMatch_def detected_def toLowerCase_def
        toLowerCase_char_def)
  have c: "det_isKeywordMatch (update_detection [] (letterbox 1280 720) example_page [] 0
      (detected (0, 0, 10, 10) (9 / 10) 7 ''truck'')) \<noteq> Some True"
    using isKeywordMatch_iff [of "[]" "letterbox 1280 720" example_page "[]" 0
        "detected (0, 0, 10, 10) (9 / 10) 7 ''truck''"]
    by simp
  show ?thesis using a b c by simp
qed

section \<open>Properties of the detection loop\<close>


lemma detectionLoop_start_accept:
  "isDetectionRunning s \<Longrightarrow> getDetectionInterval (frameTimings s) \<le> ts - lastDetectionTime s \<Longrightarrow>
     detectionLoop_start ts s = s\<lparr>lastDetectionTime := ts, pending := pending s + 1\<rparr>"
  by (simp add: detectionLoop_start_def)





lemma updateDetectionBoxes_running:
  "isDetectionRunning (snd (updateDetectionBoxes pg clock ds p s)) = isDetectionRunning s \<and>
   lastDetectionTime (snd (updateDetectionBoxes pg clock ds p s)) = lastDetectionTime s \<and>
   frameTimings (snd (updateDetectionBoxes pg clock ds p s)) = frameTimings s \<and>
   pending (snd (updateDetectionBoxes pg clock ds p s)) = pending s"
  by (simp add: updateDetectionBoxes_def Let_def)

section \<open>Properties of the error handling\<close>

text \<open>Evaluating \<open>processFrame\<close> on a model output with two anchors.\<close>

lemma length_anchor_row: "c < 80 \<Longrightarrow> length (anchor_row cx cy w h c sc) = 84"
  by (simp add: anchor_row_def)

lemma decode_box_anchor_row:
  "decode_box (anchor_row cx cy w h c sc) = (cy - h / 2, cx - w / 2, cy - h / 2 + h, cx - w / 2 + w)"
  by (simp add: decode_box_def anchor_row_def Let_def)

lemma rawScores_anchor_row:
  "c < 80 \<Longrightarrow> rawScores (anchor_row cx cy w h c sc) = replicate c 0 @ [sc] @ replicate (79 - c) 0"
  by (simp add: rawScores_def anchor_row_def numClasses_def)

lemma funpow_max_zero: "0 \<le> a \<Longrightarrow> (max 0 ^^ n) (a::real) = a"
  by (induction n) simp_all

lemma fold_max_scores:
  assumes "0 \<le> a" and "a \<le> sc"
  shows "fold max (replicate m 0 @ [sc] @ replicate n 0) (a::real) = sc"
proof -
  have "0 \<le> sc" using assms by simp
  then show ?thesis
    using assms by (simp add: funpow_max_zero max_absorb1)
qed

lemma maxScore_anchor_row:
  assumes "c < 80" and "0 < sc"
  shows "maxScore (anchor_row cx cy w h c sc) = sc"
proof (cases c)
  case 0
  then show ?thesis
    using assms by (simp add: maxScore_def rawScores_anchor_row funpow_max_zero)
next
  case (Suc m)
  then have "rawScores (anchor_row cx cy w h c sc) = 0 # (replicate m 0 @ [sc] @ replicate (79 - c) 0)"
    using assms(1) by (simp add: rawScores_anchor_row)
  then show ?thesis
    using assms(2) fold_max_scores [of 0 sc m "79 - c"] by (simp add: maxScore_def)
qed

lemma classIndex_anchor_row:
  assumes "c < 80" and "0 < sc"
  shows "classIndex (anchor_row cx cy w h c sc) = c"
  using assms by (simp add: classIndex_def maxScore_anchor_row rawScores_anchor_row takeWhile_append)

lemma iou_two_objects: "intersectionOverUnion (390, 390, 410, 410) (50, 100, 300, 110) = 0"
  unfolding intersectionOverUnion_def Let_def prod.case by simp

lemma processFrame_two_objects:
  "processFrame (example_env two_objects) =
     Inr ([detected (100, 50, 110, 300) (9 / 10) 2 ''car'',
           detected (390, 390, 410, 410) (7 / 10) 0 ''Unknown (0)''], letterbox 1280 720)"
proof -
  have d: "decode [anchor_row 105 175 10 250 2 (9 / 10), anchor_row 400 400 20 20 0 (7 / 10)]
      = Some ([(50, 100, 300, 110), (390, 390, 410, 410)], [9 / 10, 7 / 10], [2, 0])"
    by (simp add: decode_def length_anchor_row numClasses_def decode_box_anchor_row
        maxScore_anchor_row classIndex_anchor_row)
  have n: "processFrame_nms [(50, 100, 300, 110), (390, 390, 410, 410)] [9 / 10, 7 / 10] = [0, 1]"
    by (simp add: processFrame_nms_def nonMaxSuppression_def confidenceThreshold_def
        iouThreshold_def upt_conv_Cons iou_two_objects)
  have "postprocess [2 \<mapsto> ''car''] [anchor_row 105 175 10 250 2 (9 / 10), anchor_row 400 400 20 20 0 (7 / 10)]
      = Some [detected (100, 50, 110, 300) (9 / 10) 2 ''car'',
              detected (390, 390, 410, 410) (7 / 10) 0 ''Unknown (0)'']"
    by (simp add: postprocess_def d n format_detection_def className_of_def show_nat.simps
        digit_char_def)
  then show ?thesis
    by (simp add: processFrame_def example_env_def two_objects_def)
qed

lemma session_snoc: "session (es @ [e]) = apply_event e (session es)"
  by (simp add: session_def)

lemma session_append: "session (es @ es') = fold apply_event es' (session es)"
  by (simp add: session_def)

lemma session_started:
  "session [Start True True, Tick 1000] =
     initial_state\<lparr>isDetectionRunning := True, lastDetectionTime := 1000, pending := 1\<rparr>"
  by (simp add: session_def startDetection_def detectionLoop_start_def initial_state_def
      getDetectionInterval_def DETECTION_INTERVAL_def)

lemma snapshot_car:
  "snapshot (update_detection kw p pg [] 1730000123456 (detected (100, 50, 110, 300) (9 / 10) 2 ''car''))
     = \<lparr>prev_id = ''2_10000_5000_456'', prev_class = 2, prev_box = (100, 50, 110, 300)\<rparr>"
  by (simp add: snapshot_def update_detection_def assign_id_def findMatchingDetection_def
      new_id_def detected_def js_round_def show_int_def show_nat.simps digit_char_def)

lemma snapshot_person:
  "snapshot (update_detection kw p pg [] 1730000123456
       (detected (390, 390, 410, 410) (7 / 10) 0 ''Unknown (0)''))
     = \<lparr>prev_id = ''0_39000_39000_456'', prev_class = 0, prev_box = (390, 390, 410, 410)\<rparr>"
  by (simp add: snapshot_def update_detection_def assign_id_def findMatchingDetection_def
      new_id_def detected_def js_round_def show_int_def show_nat.simps digit_char_def)

lemma session_tracked:
  "session tracked_session =
     initial_state\<lparr>isDetectionRunning := True, lastDetectionTime := 1000,
       previousDetections := tracked_records\<rparr>"
proof -
  have "session tracked_session =
      apply_event (Settle (example_env two_objects) example_page (\<lambda>k. 1730000123456))
        (session [Start True True, Tick 1000])"
    using session_snoc [of "[Start True True, Tick 1000]"] by (simp add: tracked_session_def)
  also have "\<dots> = initial_state\<lparr>isDetectionRunning := True, lastDetectionTime := 1000,
       previousDetections := tracked_records\<rparr>"
    unfolding session_started
    by (simp add: cycle_completed_def detectionLoop_resume_def processFrame_two_objects
        updateDetectionBoxes_def snapshot_car snapshot_person tracked_records_def
        initial_state_def example_page_def)
  finally show ?thesis .
qed

lemma session_tracked_tick:
  "session (tracked_session @ [Tick 1200]) =
     initial_state\<lparr>isDetectionRunning := True, lastDetectionTime := 1200,
       previousDetections := tracked_records, pending := 1\<rparr>"
  by (simp add: session_snoc session_tracked detectionLoop_start_def initial_state_def
      getDetectionInterval_def DETECTION_INTERVAL_def)

lemma processFrame_Malformed: "processFrame (example_env Malformed) = Inr ([], letterbox 1280 720)"
  by (simp add: processFrame_def example_env_def)

text \<open>
  Claim C6, as stated, fails: a decode failure does not only abort the cycle. After a
  cycle that tracked two objects, a cycle whose model output is malformed is applied with
  an empty detection set, and the records of both objects are dropped; detection stays
  running.
\<close>

theorem decode_failure_applied_counterexample:
  "previousDetections (session (tracked_session @ [Tick 1200])) = tracked_records \<and>
   fst (detectionLoop_resume (processFrame (example_env Malformed)) example_page (\<lambda>k. 1730000123789)
          (session (tracked_session @ [Tick 1200])))
     = Some \<lparr>detections = [], totalCount = 0, keywordMatchCount = 0\<rparr> \<and>
   previousDetections (session (tracked_session @
       [Tick 1200, Settle (example_env Malformed) example_page (\<lambda>k. 1730000123789)])) = [] \<and>
   isDetectionRunning (session (tracked_session @
       [Tick 1200, Settle (example_env Malformed) example_page (\<lambda>k. 1730000123789)]))"
proof -
  have "session (tracked_session @ [Tick 1200, Settle (example_env Malformed) example_page (\<lambda>k. 1730000123789)])
      = apply_event (Settle (example_env Malformed) example_page (\<lambda>k. 1730000123789))
          (session (tracked_session @ [Tick 1200]))"
    using session_snoc [of "tracked_session @ [Tick 1200]"] by simp
  then show ?thesis
    unfolding session_tracked_tick
    by (simp add: cycle_completed_def detectionLoop_resume_def processFrame_Malformed
        updateDetectionBoxes_def example_page_def initial_state_def)
qed

lemma updateDetectionBoxes_empty:
  "boxesContainer pg \<Longrightarrow>
     updateDetectionBoxes pg clock [] p s =
       (Some \<lparr>detections = [], totalCount = 0, keywordMatchCount = 0\<rparr>, s\<lparr>previousDetections := []\<rparr>)"
  by (simp add: updateDetectionBoxes_def)

lemma processFrame_decode_failure:
  assumes "model_loaded env" "video_present env" "frame_size env = Some (w, h)" "0 < w" "0 < h"
    and "model_result env = Malformed \<or>
         (\<exists>rows. model_result env = Output rows \<and> postprocess (classNames env) rows = None)"
  shows "processFrame env = Inr ([], letterbox w h)"
  using assms by (auto simp: processFrame_def)

text \<open>
  Claim C6, amended. A frame that cannot be read or has no size makes \<open>processFrame\<close>
  reject with a preprocess error, a failing \<open>model.execute\<close> with an inference error.
  After any rejection the loop sets \<open>isDetectionRunning\<close> to false and changes nothing
  else, and ticks start no cycle while the flag stays false. When decoding a tensor output
  fails, \<open>processFrame\<close> returns no detections and the cycle completes with them: the
  empty detection set is applied, \<open>previousDetections\<close> becomes empty, the running flag
  stays as it was, and the next tick past the interval starts a cycle.
\<close>

theorem error_handling_asymmetry:
  "(model_loaded env \<and> video_present env \<and>
    (frame_size env = None \<or> (\<exists>fw fh. frame_size env = Some (fw, fh) \<and> (fw \<le> 0 \<or> fh \<le> 0))) \<longrightarrow>
      processFrame env = Inl PreprocessError) \<and>
   (model_loaded env \<and> video_present env \<and> frame_size env = Some (w, h) \<and> 0 < w \<and> 0 < h \<and>
    model_result env = ExecuteFails \<longrightarrow>
      processFrame env = Inl InferenceError) \<and>
   (\<forall>e. processFrame env = Inl e \<longrightarrow>
      detectionLoop_resume (processFrame env) pg clock s
        = (None, s\<lparr>isDetectionRunning := False, pending := pending s - 1\<rparr>) \<and>
      (\<forall>ts. detectionLoop_start ts (cycle_completed env pg clock s) = cycle_completed env pg clock s)) \<and>
   (model_loaded env \<and> video_present env \<and> frame_size env = Some (w, h) \<and> 0 < w \<and> 0 < h \<and>
    (model_result env = Malformed \<or>
     (\<exists>rows. model_result env = Output rows \<and> postprocess (classNames env) rows = None)) \<longrightarrow>
      processFrame env = Inr ([], letterbox w h) \<and>
      (boxesContainer pg \<longrightarrow>
         detectionLoop_resume (processFrame env) pg clock s
           = (Some \<lparr>detections = [], totalCount = 0, keywordMatchCount = 0\<rparr>,
              s\<lparr>previousDetections := [], pending := pending s - 1\<rparr>)) \<and>
      isDetectionRunning (cycle_completed env pg clock s) = isDetectionRunning s \<and>
      (isDetectionRunning s \<longrightarrow>
         (\<forall>ts. getDetectionInterval (frameTimings s) \<le> ts - lastDetectionTime s \<longrightarrow>
            pending (detectionLoop_start ts (cycle_completed env pg clock s))
              = pending (cycle_completed env pg clock s) + 1)))"
proof (intro conjI impI allI)
  assume "model_loaded env \<and> video_present env \<and>
    (frame_size env = None \<or> (\<exists>fw fh. frame_size env = Some (fw, fh) \<and> (fw \<le> 0 \<or> fh \<le> 0)))"
  then show "processFrame env = Inl PreprocessError"
    by (auto simp: processFrame_def)
next
  assume "model_loaded env \<and> video_present env \<and> frame_size env = Some (w, h) \<and> 0 < w \<and> 0 < h \<and>
    model_result env = ExecuteFails"
  then show "processFrame env = Inl InferenceError"
    by (auto simp: processFrame_def)
next
  fix e
  assume "processFrame env = Inl e"
  then show r: "detectionLoop_resume (processFrame env) pg clock s
      = (None, s\<lparr>isDetectionRunning := False, pending := pending s - 1\<rparr>)"
    by (simp add: detectionLoop_resume_def)
  show "detectionLoop_start ts (cycle_completed env pg clock s) = cycle_completed env pg clock s" for ts
    using r by (simp add: cycle_completed_def detectionLoop_start_def)
next
  assume a: "model_loaded env \<and> video_present env \<and> frame_size env = Some (w, h) \<and> 0 < w \<and> 0 < h \<and>
    (model_result env = Malformed \<or>
     (\<exists>rows. model_result env = Output rows \<and> postprocess (classNames env) rows = None))"
  then show pf: "processFrame env = Inr ([], letterbox w h)"
    using processFrame_decode_failure by blast
  show "detectionLoop_resume (processFrame env) pg clock s
      = (Some \<lparr>detections = [], totalCount = 0, keywordMatchCount = 0\<rparr>,
         s\<lparr>previousDetections := [], pending := pending s - 1\<rparr>)"
    if "boxesContainer pg"
    using that pf by (simp add: detectionLoop_resume_def updateDetectionBoxes_empty)
  show run: "isDetectionRunning (cycle_completed env pg clock s) = isDetectionRunning s"
    using pf by (simp add: cycle_completed_def detectionLoop_resume_def updateDetectionBoxes_running)
  fix ts
  assume "isDetectionRunning s" and "getDetectionInterval (frameTimings s) \<le> ts - lastDetectionTime s"
  moreover have "frameTimings (cycle_completed env pg clock s) = frameTimings s"
    and "lastDetectionTime (cycle_completed env pg clock s) = lastDetectionTime s"
    using pf by (simp_all add: cycle_completed_def detectionLoop_resume_def updateDetectionBoxes_running)
  ultimately show "pending (detectionLoop_start ts (cycle_completed env pg clock s))
      = pending (cycle_completed env pg clock s) + 1"
    using run by (simp add: detectionLoop_start_accept)
qed

theorem error_handling_asymmetry_witness:
  "\<not> isDetectionRunning (session [Start True True, Tick 1000,
        Settle (example_env ExecuteFails) example_page (\<lambda>k. 5)]) \<and>
   \<not> isDetectionRunning (session [Start True True, Tick 1000,
        Settle ((example_env two_objects)\<lparr>frame_size := None\<rparr>) example_page (\<lambda>k. 5)]) \<and>
   \<not> isDetectionRunning (session [Start True True, Tick 1000,
        Settle ((example_env two_objects)\<lparr>frame_size := Some (0, 0)\<rparr>) example_page (\<lambda>k. 5)]) \<and>
   detectionLoop_resume (processFrame (example_env Malformed)) example_page (\<lambda>k. 5)
       (session (tracked_session @ [Tick 1200]))
     = (Some \<lparr>detections = [], totalCount = 0, keywordMatchCount = 0\<rparr>,
        (session (tracked_session @ [Tick 1200]))\<lparr>previousDetections := [], pending := 0\<rparr>) \<and>
   isDetectionRunning (cycle_completed (example_env (Output [anchor_row 105 175 10 250 2 (9 / 10)]))
       example_page (\<lambda>k. 5) (session (tracked_session @ [Tick 1200]))) \<and>
   pending (detectionLoop_start 1400 (cycle_completed (example_env Malformed) example_page (\<lambda>k. 5)
       (session (tracked_session @ [Tick 1200])))) = 1"
proof -
  let ?st = "session [Start True True, Tick 1000]"
  let ?s = "session (tracked_session @ [Tick 1200])"
  let ?none = "(example_env two_objects)\<lparr>frame_size := None\<rparr>"
  let ?zero = "(example_env two_objects)\<lparr>frame_size := Some (0, 0)\<rparr>"
  let ?one = "example_env (Output [anchor_row 105 175 10 250 2 (9 / 10)])"
  have p0: "pending ?st \<noteq> 0" by (simp add: session_started)
  have stop: "\<not> isDetectionRunning (session [Start True True, Tick 1000, Settle env example_page (\<lambda>k. 5)])"
    if "processFrame env = Inl e" for env e
  proof -
    have "detectionLoop_resume (processFrame env) example_page (\<lambda>k. 5) ?st
        = (None, ?st\<lparr>isDetectionRunning := False, pending := pending ?st - 1\<rparr>)"
      using that error_handling_asymmetry [where env = env and pg = example_page and clock = "\<lambda>k. 5"
          and s = ?st]
      by blast
    moreover have "session [Start True True, Tick 1000, Settle env example_page (\<lambda>k. 5)]
        = cycle_completed env example_page (\<lambda>k. 5) ?st"
      using session_snoc [of "[Start True True, Tick 1000]" "Settle env example_page (\<lambda>k. 5)"] p0
      by simp
    ultimately show ?thesis
      by (simp add: cycle_completed_def)
  qed
  have "processFrame (example_env ExecuteFails) = Inl InferenceError"
    using error_handling_asymmetry [where env = "example_env ExecuteFails" and w = 1280 and h = 720]
    by (simp add: example_env_def)
  then have a: "\<not> isDetectionRunning (session [Start True True, Tick 1000,
      Settle (example_env ExecuteFails) example_page (\<lambda>k. 5)])"
    by (rule stop)
  have "processFrame ?none = Inl PreprocessError"
    using error_handling_asymmetry [where env = ?none]
    by (simp add: example_env_def)
  then have b: "\<not> isDetectionRunning (session [Start True True, Tick 1000, Settle ?none example_page (\<lambda>k. 5)])"
    by (rule stop)
  have "processFrame ?zero = Inl PreprocessError"
    using error_handling_asymmetry [where env = ?zero]
    by (simp add: example_env_def)
  then have c: "\<not> isDetectionRunning (session [Start True True, Tick 1000, Settle ?zero example_page (\<lambda>k. 5)])"
    by (rule stop)
  have run: "isDetectionRunning ?s" and pend: "pending ?s - 1 = 0"
    and iv: "getDetectionInterval (frameTimings ?s) \<le> 1400 - lastDetectionTime ?s"
    by (simp_all add: session_tracked_tick initial_state_def getDetectionInterval_def
        DETECTION_INTERVAL_def)
  have mal: "model_loaded (example_env Malformed) \<and> video_present (example_env Malformed) \<and>
      frame_size (example_env Malformed) = Some (1280, 720) \<and> (0::real) < 1280 \<and> (0::real) < 720 \<and>
      (model_result (example_env Malformed) = Malformed \<or>
       (\<exists>rows. model_result (example_env Malformed) = Output rows \<and>
          postprocess (classNames (example_env Malformed)) rows = None))"
    by (simp add: example_env_def)
  have one: "model_loaded ?one \<and> video_present ?one \<and>
      frame_size ?one = Some (1280, 720) \<and> (0::real) < 1280 \<and> (0::real) < 720 \<and>
      (model_result ?one = Malformed \<or>
       (\<exists>rows. model_result ?one = Output rows \<and> postprocess (classNames ?one) rows = None))"
    by (simp add: example_env_def postprocess_def decode_def length_anchor_row numClasses_def)
  note m = error_handling_asymmetry [where env = "example_env Malformed" and w = 1280 and h = 720
      and pg = example_page and clock = "\<lambda>k. 5" and s = ?s]
  have "boxesContainer example_page" by (simp add: example_page_def)
  then have "detectionLoop_resume (processFrame (example_env Malformed)) example_page (\<lambda>k. 5) ?s
      = (Some \<lparr>detections = [], totalCount = 0, keywordMatchCount = 0\<rparr>,
         ?s\<lparr>previousDetections := [], pending := pending ?s - 1\<rparr>)"
    using m mal by blast
  then have d: "detectionLoop_resume (processFrame (example_env Malformed)) example_page (\<lambda>k. 5) ?s
      = (Some \<lparr>detections = [], totalCount = 0, keywordMatchCount = 0\<rparr>,
         ?s\<lparr>previousDetections := [], pending := 0\<rparr>)"
    using pend by simp
  have e: "isDetectionRunning (cycle_completed ?one example_page (\<lambda>k. 5) ?s)"
    using error_handling_asymmetry [where env = ?one and w = 1280 and h = 720
        and pg = example_page and clock = "\<lambda>k. 5" and s = ?s] one run
    by blast
  have "pending (detectionLoop_start 1400 (cycle_completed (example_env Malformed) example_page (\<lambda>k. 5) ?s))
      = pending (cycle_completed (example_env Malformed) example_page (\<lambda>k. 5) ?s) + 1"
    using m mal run iv by blast
  moreover have "pending (cycle_completed (example_env Malformed) example_page (\<lambda>k. 5) ?s) = 0"
    using d by (simp add: cycle_completed_def)
  ultimately have f: "pending (detectionLoop_start 1400
      (cycle_completed (example_env Malformed) example_page (\<lambda>k. 5) ?s)) = 1"
    by simp
  show ?thesis
    using a b c d e f by blast
qed

text \<open>
  The rejection clears only the running flag: when it settles while the page is hidden,
  \<open>wasRunningBeforeHidden\<close> is still set and the next visibility change resumes detection.
\<close>

lemma failure_while_hidden_resumes:
  "isDetectionRunning (session [Start True True, Tick 1000, VisibilityChange True,
      Settle (example_env ExecuteFails) example_page (\<lambda>k. 5), VisibilityChange False])"
  by (simp add: session_def startDetection_def detectionLoop_start_def visibilitychange_def
      initial_state_def getDetectionInterval_def DETECTION_INTERVAL_def cycle_completed_def
      detectionLoop_resume_def processFrame_def example_env_def)

text \<open>
  A model output that is not a tensor is a decode failure that ends as a rejection: the
  clean-up of \<open>processFrame\<close> throws on it.
\<close>

lemma not_a_tensor_stops:
  "processFrame (example_env NotATensor) = Inl DisposeError \<and>
   \<not> isDetectionRunning (session [Start True True, Tick 1000,
        Settle (example_env NotATensor) example_page (\<lambda>k. 5)])"
  by (simp add: session_def startDetection_def detectionLoop_start_def
      initial_state_def getDetectionInterval_def DETECTION_INTERVAL_def cycle_completed_def
      detectionLoop_resume_def processFrame_def example_env_def)

section \<open>Properties of the stop operation\<close>









section \<open>Properties of the resume\<close>

text \<open>
  Claim C8, as stated, fails. A cycle starts at timestamp 4900; the page is hidden and
  shown again; the tick at 5016 starts a cycle, though the resume lies after 4900 and so
  less than 116 ms back, which is less than the interval of 200.
\<close>

theorem resume_unthrottled_counterexample:
  "isDetectionRunning resumed_state \<and>
   (5016::real) - 4900 < getDetectionInterval (frameTimings resumed_state) \<and>
   pending (apply_event (Tick 5016) resumed_state) = pending resumed_state + 1"
  by (simp add: resumed_state_def session_def visibilitychange_def detectionLoop_start_def
      startDetection_def initial_state_def getDetectionInterval_def DETECTION_INTERVAL_def)

text \<open>
  Claim C8, amended. When the page becomes visible again and detection was running
  before, the handler sets \<open>lastDetectionTime\<close> to 0. A tick then starts a cycle as soon
  as its timestamp is at least the interval, whatever the time since the resume; only a
  tick with a timestamp below the interval is skipped.
\<close>

theorem resume_resets_clock_to_zero:
  "wasRunningBeforeHidden s \<longrightarrow>
     isDetectionRunning (visibilitychange False s) \<and>
     lastDetectionTime (visibilitychange False s) = 0 \<and>
     (\<forall>ts. getDetectionInterval (frameTimings s) \<le> ts \<longrightarrow>
        pending (detectionLoop_start ts (visibilitychange False s)) = pending s + 1 \<and>
        lastDetectionTime (detectionLoop_start ts (visibilitychange False s)) = ts) \<and>
     (\<forall>ts. ts < getDetectionInterval (frameTimings s) \<longrightarrow>
        detectionLoop_start ts (visibilitychange False s) = visibilitychange False s)"
  by (simp add: visibilitychange_def detectionLoop_start_def)

theorem resume_resets_clock_to_zero_witness:
  "wasRunningBeforeHidden (session [Start True True, Tick 4900, VisibilityChange True]) \<and>
   lastDetectionTime resumed_state = 0 \<and>
   pending (detectionLoop_start 5016 resumed_state) = 2 \<and>
   lastDetectionTime (detectionLoop_start 5016 resumed_state) = 5016"
proof -
  let ?s = "session [Start True True, Tick 4900, VisibilityChange True]"
  have w: "wasRunningBeforeHidden ?s"
    by (simp add: session_def visibilitychange_def detectionLoop_start_def
        startDetection_def initial_state_def getDetectionInterval_def DETECTION_INTERVAL_def)
  have iv: "getDetectionInterval (frameTimings ?s) \<le> 5016"
    by (simp add: session_def visibilitychange_def detectionLoop_start_def
        startDetection_def initial_state_def getDetectionInterval_def DETECTION_INTERVAL_def)
  have p: "pending ?s = 1"
    by (simp add: session_def visibilitychange_def detectionLoop_start_def
        startDetection_def initial_state_def getDetectionInterval_def DETECTION_INTERVAL_def)
  have r: "resumed_state = visibilitychange False ?s"
    by (simp add: resumed_state_def session_def)
  note t = resume_resets_clock_to_zero [of ?s]
  have "lastDetectionTime (visibilitychange False ?s) = 0"
    using t w by blast
  moreover have "pending (detectionLoop_start 5016 (visibilitychange False ?s)) = pending ?s + 1 \<and>
      lastDetectionTime (detectionLoop_start 5016 (visibilitychange False ?s)) = 5016"
    using t w iv by blast
  ultimately show ?thesis
    using w p r by simp
qed

end
